theory Spec2Isabelle
  imports Main
begin

section \<open>JavaScript values and the built-in Map\<close>

text \<open>
  Payload fields arrive from the client, so a field declared \<^verbatim>\<open>string\<close> may be absent
  (\<^verbatim>\<open>undefined\<close>): such a field is a \<open>string option\<close>. The handlers test fields with
  \<^verbatim>\<open>!field\<close>, which holds for an absent field and for the empty string.
\<close>

fun truthy_str :: "string option \<Rightarrow> bool" where
  "truthy_str None = False"
| "truthy_str (Some s) = (s \<noteq> [])"

text \<open>
  The \<^verbatim>\<open>signal\<close> field has type \<^verbatim>\<open>unknown\<close>. The handler only tests \<^verbatim>\<open>!signal\<close>, so the
  value is kept as a JavaScript value with its truthiness; the content of an object is
  opaque.
\<close>

datatype jsval =
    JUndefined
  | JNull
  | JBool bool
  | JNum int
  | JStr string
  | JObj string

fun truthy :: "jsval \<Rightarrow> bool" where
  "truthy JUndefined = False"
| "truthy JNull = False"
| "truthy (JBool b) = b"
| "truthy (JNum n) = (n \<noteq> 0)"
| "truthy (JStr s) = (s \<noteq> [])"
| "truthy (JObj _) = True"

text \<open>
  A JavaScript \<^verbatim>\<open>Map\<close> keeps its entries in insertion order with unique keys. It is an
  association list: \<^verbatim>\<open>get\<close> finds the entry of a key, \<^verbatim>\<open>set\<close> overwrites the value of a
  present key where it stands and appends a new key at the end, \<^verbatim>\<open>delete\<close> removes the
  entry of a key, \<^verbatim>\<open>size\<close> is the number of entries.
\<close>

fun Map_get :: "('k \<times> 'v) list \<Rightarrow> 'k \<Rightarrow> 'v option" where
  "Map_get [] k = None"
| "Map_get ((k', v) # m) k = (if k' = k then Some v else Map_get m k)"

fun Map_set :: "('k \<times> 'v) list \<Rightarrow> 'k \<Rightarrow> 'v \<Rightarrow> ('k \<times> 'v) list" where
  "Map_set [] k v = [(k, v)]"
| "Map_set ((k', v') # m) k v = (if k' = k then (k, v) # m else (k', v') # Map_set m k v)"

fun Map_delete :: "('k \<times> 'v) list \<Rightarrow> 'k \<Rightarrow> ('k \<times> 'v) list" where
  "Map_delete [] k = []"
| "Map_delete ((k', v') # m) k = (if k' = k then Map_delete m k else (k', v') # Map_delete m k)"

definition Map_size :: "('k \<times> 'v) list \<Rightarrow> nat" where
  "Map_size m = length m"

definition Map_values :: "('k \<times> 'v) list \<Rightarrow> 'v list" where
  "Map_values m = map snd m"

definition Map_keys :: "('k \<times> 'v) list \<Rightarrow> 'k list" where
  "Map_keys m = map fst m"

section \<open>Data model\<close>

record CallParticipant =
  socketId :: string
  userId :: string
  meetingId :: string
  peerId :: string
  username :: string
  isMuted :: bool
  isVideoOn :: bool
  joinedAt :: string

record JoinCallPayload =
  join_meetingId :: "string option"
  join_userId :: "string option"
  join_peerId :: "string option"
  join_username :: "string option"

record LeaveCallPayload =
  leave_meetingId :: "string option"
  leave_userId :: "string option"

record SignalPayload =
  sig_meetingId :: "string option"
  sig_fromUserId :: "string option"
  sig_toUserId :: "string option"
  sig_fromPeerId :: "string option"
  sig_toPeerId :: "string option"
  sig_signal :: jsval
  sig_signalType :: "string option"

record MutePayload =
  mute_meetingId :: "string option"
  mute_userId :: "string option"

record VideoPayload =
  video_meetingId :: "string option"
  video_userId :: "string option"

text \<open>
  The two module-level maps: \<^verbatim>\<open>callRooms\<close> from meetingId to the room (a map from userId
  to the participant), and \<^verbatim>\<open>socketToUser\<close> from socket id to \<^verbatim>\<open>{ meetingId, userId }\<close>.
\<close>

type_synonym room = "(string \<times> CallParticipant) list"

record registry =
  callRooms :: "(string \<times> room) list"
  socketToUser :: "(string \<times> (string \<times> string)) list"

definition empty_registry :: registry where
  "empty_registry = \<lparr>callRooms = [], socketToUser = []\<rparr>"

section \<open>Outbound events and socket effects\<close>

datatype error_code =
    INVALID_PAYLOAD
  | ROOM_FULL
  | ROOM_NOT_FOUND
  | USER_NOT_FOUND
  | INVALID_SIGNAL
  | JOIN_ERROR
  | SIGNAL_ERROR

text \<open>One entry of the peers list: the participant without its socket id and meeting id.\<close>

record peer_entry =
  pe_userId :: string
  pe_peerId :: string
  pe_username :: string
  pe_isMuted :: bool
  pe_isVideoOn :: bool
  pe_joinedAt :: string

text \<open>
  The forwarded signal. \<^verbatim>\<open>fromUserId\<close> and \<^verbatim>\<open>fromPeerId\<close> come from optional chaining
  (\<^verbatim>\<open>userInfo?.userId\<close>, \<^verbatim>\<open>senderParticipant?.peerId\<close>) and may be undefined.
\<close>

record signal_forward =
  fwd_meetingId :: string
  fwd_fromUserId :: "string option"
  fwd_toUserId :: string
  fwd_fromPeerId :: "string option"
  fwd_toPeerId :: "string option"
  fwd_signal :: jsval
  fwd_signalType :: "string option"

text \<open>
  The human-readable text of an error event is fixed by its code (and by the configured
  maximum for \<open>ROOM_FULL\<close>), so the event is represented by the code.
\<close>

datatype message =
    ERROR error_code
  | PEERS_LIST string "peer_entry list" nat
  | PEER_JOINED string string string string
  | PEER_LEFT string string string string
  | SIGNAL signal_forward
  | MUTE_STATUS string string bool string
  | VIDEO_STATUS string string bool string

text \<open>
  Where an event is sent: \<^verbatim>\<open>socket.emit\<close> (the calling connection only),
  \<^verbatim>\<open>socket.to(room).emit\<close> (the connections of a Socket.IO room except the calling one),
  \<^verbatim>\<open>io.to(room).emit\<close> (all connections of a Socket.IO room; the room named by a socket
  id is the one Socket.IO keeps for that connection). \<^verbatim>\<open>socket.join\<close> and \<^verbatim>\<open>socket.leave\<close>
  are recorded as effects; who is in a Socket.IO room is the transport's state.
\<close>

datatype target =
    Socket_emit string
  | Socket_to string string
  | Io_to string

datatype effect =
    Emit target message
  | Socket_join string string
  | Socket_leave string string

section \<open>Event handlers\<close>

definition peer_of :: "CallParticipant \<Rightarrow> peer_entry" where
  "peer_of p = \<lparr>pe_userId = userId p, pe_peerId = peerId p, pe_username = username p,
     pe_isMuted = isMuted p, pe_isVideoOn = isVideoOn p, pe_joinedAt = joinedAt p\<rparr>"

definition or_Anonymous :: "string option \<Rightarrow> string" where
  "or_Anonymous name = (case name of None \<Rightarrow> ''Anonymous'' | Some s \<Rightarrow> if s = [] then ''Anonymous'' else s)"

text \<open>
  The body of the join handler after payload validation. \<open>MAX_PARTICIPANTS\<close> is the
  configured maximum, \<^verbatim>\<open>parseInt(process.env.MAX_PARTICIPANTS || '10', 10)\<close>: any integer
  the environment gives, 10 by default. \<open>now1\<close> and \<open>now2\<close> are the two readings of the
  clock (the join time and the timestamp of the notification). The room is looked up or
  created first, then the capacity is checked, then the user is looked up in the room.
  Logging has no effect on the registry or on what is sent and is left out.
\<close>

definition join_room :: "int \<Rightarrow> string \<Rightarrow> string \<Rightarrow> registry \<Rightarrow> string \<Rightarrow>
    string \<Rightarrow> string \<Rightarrow> string \<Rightarrow> string option \<Rightarrow> registry \<times> effect list" where
  "join_room MAX_PARTICIPANTS now1 now2 st sid m u p name =
     (let rooms1 = (case Map_get (callRooms st) m of
                      None \<Rightarrow> Map_set (callRooms st) m []
                    | Some r \<Rightarrow> callRooms st);
          room = (case Map_get (callRooms st) m of None \<Rightarrow> [] | Some r \<Rightarrow> r)
      in if int (Map_size room) \<ge> MAX_PARTICIPANTS
         then (st\<lparr>callRooms := rooms1\<rparr>, [Emit (Socket_emit sid) (ERROR ROOM_FULL)])
         else
           let room' = (case Map_get room u of
                          Some existingParticipant \<Rightarrow>
                            Map_set room u (existingParticipant\<lparr>socketId := sid, peerId := p\<rparr>)
                        | None \<Rightarrow>
                            Map_set room u
                              \<lparr>socketId = sid, userId = u, meetingId = m, peerId = p,
                               username = or_Anonymous name, isMuted = True,
                               isVideoOn = False, joinedAt = now1\<rparr>);
               otherParticipants =
                 map peer_of (filter (\<lambda>q. userId q \<noteq> u) (Map_values room'))
           in (\<lparr>callRooms = Map_set rooms1 m room',
                socketToUser = Map_set (socketToUser st) sid (m, u)\<rparr>,
               [Socket_join sid m,
                Emit (Socket_emit sid) (PEERS_LIST m otherParticipants (length otherParticipants)),
                Emit (Socket_to sid m) (PEER_JOINED u p (or_Anonymous name) now2)]))"

definition on_JOIN :: "int \<Rightarrow> string \<Rightarrow> string \<Rightarrow> registry \<Rightarrow> string \<Rightarrow>
    JoinCallPayload \<Rightarrow> registry \<times> effect list" where
  "on_JOIN MAX_PARTICIPANTS now1 now2 st sid payload =
     (if \<not> truthy_str (join_meetingId payload) \<or> \<not> truthy_str (join_userId payload)
         \<or> \<not> truthy_str (join_peerId payload)
      then (st, [Emit (Socket_emit sid) (ERROR INVALID_PAYLOAD)])
      else join_room MAX_PARTICIPANTS now1 now2 st sid
             (the (join_meetingId payload)) (the (join_userId payload))
             (the (join_peerId payload)) (join_username payload))"

text \<open>
  The signal handler. The event may come without a payload object (\<^verbatim>\<open>undefined\<close> or
  \<^verbatim>\<open>null\<close>, here \<open>None\<close>): the destructuring of the payload then throws inside the
  handler's \<^verbatim>\<open>try\<close>, and the \<^verbatim>\<open>catch\<close> answers the caller with \<open>SIGNAL_ERROR\<close>.
\<close>

definition on_SIGNAL :: "registry \<Rightarrow> string \<Rightarrow> SignalPayload option \<Rightarrow> registry \<times> effect list" where
  "on_SIGNAL st sid event_payload =
     (case event_payload of
        None \<Rightarrow> (st, [Emit (Socket_emit sid) (ERROR SIGNAL_ERROR)])
      | Some payload \<Rightarrow>
     (if \<not> truthy_str (sig_meetingId payload) \<or> \<not> truthy_str (sig_toUserId payload)
         \<or> \<not> truthy (sig_signal payload)
      then (st, [Emit (Socket_emit sid) (ERROR INVALID_SIGNAL)])
      else
        let m = the (sig_meetingId payload); toUserId = the (sig_toUserId payload)
        in case Map_get (callRooms st) m of
             None \<Rightarrow> (st, [Emit (Socket_emit sid) (ERROR ROOM_NOT_FOUND)])
           | Some room \<Rightarrow>
               (case Map_get room toUserId of
                  None \<Rightarrow> (st, [Emit (Socket_emit sid) (ERROR USER_NOT_FOUND)])
                | Some targetParticipant \<Rightarrow>
                    let userInfo = Map_get (socketToUser st) sid;
                        senderParticipant =
                          (case userInfo of None \<Rightarrow> None | Some (_, uid) \<Rightarrow> Map_get room uid)
                    in (st,
                        [Emit (Io_to (socketId targetParticipant))
                           (SIGNAL \<lparr>fwd_meetingId = m,
                                    fwd_fromUserId = map_option snd userInfo,
                                    fwd_toUserId = toUserId,
                                    fwd_fromPeerId = map_option peerId senderParticipant,
                                    fwd_toPeerId = sig_toPeerId payload,
                                    fwd_signal = sig_signal payload,
                                    fwd_signalType = sig_signalType payload\<rparr>)]))))"

text \<open>
  The mute and unmute handlers differ only in the written flag, the video-on and video-off
  handlers likewise; \<open>set_muted\<close> and \<open>set_video\<close> are their common bodies.
\<close>

definition set_muted :: "bool \<Rightarrow> string \<Rightarrow> registry \<Rightarrow> MutePayload \<Rightarrow> registry \<times> effect list" where
  "set_muted b now st payload =
     (if \<not> truthy_str (mute_meetingId payload) \<or> \<not> truthy_str (mute_userId payload)
      then (st, [])
      else
        let m = the (mute_meetingId payload); u = the (mute_userId payload)
        in case Map_get (callRooms st) m of
             None \<Rightarrow> (st, [])
           | Some room \<Rightarrow>
               (case Map_get room u of
                  None \<Rightarrow> (st, [])
                | Some participant \<Rightarrow>
                    (st\<lparr>callRooms :=
                         Map_set (callRooms st) m (Map_set room u (participant\<lparr>isMuted := b\<rparr>))\<rparr>,
                     [Emit (Io_to m) (MUTE_STATUS u (username participant) b now)])))"

definition on_MUTE :: "string \<Rightarrow> registry \<Rightarrow> string \<Rightarrow> MutePayload \<Rightarrow> registry \<times> effect list" where
  "on_MUTE now st sid payload = set_muted True now st payload"

definition on_UNMUTE :: "string \<Rightarrow> registry \<Rightarrow> string \<Rightarrow> MutePayload \<Rightarrow> registry \<times> effect list" where
  "on_UNMUTE now st sid payload = set_muted False now st payload"

definition set_video :: "bool \<Rightarrow> string \<Rightarrow> registry \<Rightarrow> VideoPayload \<Rightarrow> registry \<times> effect list" where
  "set_video b now st payload =
     (if \<not> truthy_str (video_meetingId payload) \<or> \<not> truthy_str (video_userId payload)
      then (st, [])
      else
        let m = the (video_meetingId payload); u = the (video_userId payload)
        in case Map_get (callRooms st) m of
             None \<Rightarrow> (st, [])
           | Some room \<Rightarrow>
               (case Map_get room u of
                  None \<Rightarrow> (st, [])
                | Some participant \<Rightarrow>
                    (st\<lparr>callRooms :=
                         Map_set (callRooms st) m (Map_set room u (participant\<lparr>isVideoOn := b\<rparr>))\<rparr>,
                     [Emit (Io_to m) (VIDEO_STATUS u (username participant) b now)])))"

definition on_VIDEO_ON :: "string \<Rightarrow> registry \<Rightarrow> string \<Rightarrow> VideoPayload \<Rightarrow> registry \<times> effect list" where
  "on_VIDEO_ON now st sid payload = set_video True now st payload"

definition on_VIDEO_OFF :: "string \<Rightarrow> registry \<Rightarrow> string \<Rightarrow> VideoPayload \<Rightarrow> registry \<times> effect list" where
  "on_VIDEO_OFF now st sid payload = set_video False now st payload"

text \<open>
  \<^verbatim>\<open>handleUserLeave(socket, io, meetingId, userId)\<close>: the socket mapping that is deleted
  is the one of the calling socket.
\<close>

definition handleUserLeave :: "string \<Rightarrow> registry \<Rightarrow> string \<Rightarrow> string option \<Rightarrow> string option \<Rightarrow>
    registry \<times> effect list" where
  "handleUserLeave now st sid mid uid =
     (if \<not> truthy_str mid \<or> \<not> truthy_str uid then (st, [])
      else
        let m = the mid; u = the uid
        in case Map_get (callRooms st) m of
             None \<Rightarrow> (st, [])
           | Some room \<Rightarrow>
               (case Map_get room u of
                  None \<Rightarrow> (st, [])
                | Some participant \<Rightarrow>
                    let room' = Map_delete room u
                    in (\<lparr>callRooms = (if Map_size room' = 0 then Map_delete (callRooms st) m
                                       else Map_set (callRooms st) m room'),
                         socketToUser = Map_delete (socketToUser st) sid\<rparr>,
                        [Socket_leave sid m,
                         Emit (Io_to m) (PEER_LEFT u (peerId participant) (username participant) now)])))"

definition on_LEAVE :: "string \<Rightarrow> registry \<Rightarrow> string \<Rightarrow> LeaveCallPayload \<Rightarrow> registry \<times> effect list" where
  "on_LEAVE now st sid payload =
     handleUserLeave now st sid (leave_meetingId payload) (leave_userId payload)"

definition on_DISCONNECT :: "string \<Rightarrow> registry \<Rightarrow> string \<Rightarrow> registry \<times> effect list" where
  "on_DISCONNECT now st sid =
     (case Map_get (socketToUser st) sid of
        None \<Rightarrow> (st, [])
      | Some (m, u) \<Rightarrow> handleUserLeave now st sid (Some m) (Some u))"

section \<open>Event sequences\<close>

datatype event =
    Join string JoinCallPayload
  | Leave string LeaveCallPayload
  | Signal string "SignalPayload option"
  | Mute string MutePayload
  | Unmute string MutePayload
  | VideoOn string VideoPayload
  | VideoOff string VideoPayload
  | Disconnect string

fun step :: "int \<Rightarrow> string \<Rightarrow> registry \<Rightarrow> event \<Rightarrow> registry \<times> effect list" where
  "step MAX_PARTICIPANTS now st (Join sid payload) = on_JOIN MAX_PARTICIPANTS now now st sid payload"
| "step MAX_PARTICIPANTS now st (Leave sid payload) = on_LEAVE now st sid payload"
| "step MAX_PARTICIPANTS now st (Signal sid payload) = on_SIGNAL st sid payload"
| "step MAX_PARTICIPANTS now st (Mute sid payload) = on_MUTE now st sid payload"
| "step MAX_PARTICIPANTS now st (Unmute sid payload) = on_UNMUTE now st sid payload"
| "step MAX_PARTICIPANTS now st (VideoOn sid payload) = on_VIDEO_ON now st sid payload"
| "step MAX_PARTICIPANTS now st (VideoOff sid payload) = on_VIDEO_OFF now st sid payload"
| "step MAX_PARTICIPANTS now st (Disconnect sid) = on_DISCONNECT now st sid"

text \<open>
  Running the handlers over a sequence of events, each with the clock reading at which it
  is handled, from a given registry.
\<close>

fun run :: "int \<Rightarrow> registry \<Rightarrow> (string \<times> event) list \<Rightarrow> registry" where
  "run MAX_PARTICIPANTS st [] = st"
| "run MAX_PARTICIPANTS st ((now, e) # es) =
     run MAX_PARTICIPANTS (fst (step MAX_PARTICIPANTS now st e)) es"

section \<open>Queries on the registry\<close>

text \<open>The participant stored for a user in a room, and the size of a room (0 when absent).\<close>

definition participant_of :: "registry \<Rightarrow> string \<Rightarrow> string \<Rightarrow> CallParticipant option" where
  "participant_of st m u =
     (case Map_get (callRooms st) m of None \<Rightarrow> None | Some room \<Rightarrow> Map_get room u)"

definition room_size :: "registry \<Rightarrow> string \<Rightarrow> nat" where
  "room_size st m = (case Map_get (callRooms st) m of None \<Rightarrow> 0 | Some room \<Rightarrow> Map_size room)"

section \<open>A sample call\<close>

text \<open>
  Room \<open>r1\<close> with two participants: alice on connection \<open>s1\<close> (unmuted), bob on
  connection \<open>s2\<close>.
\<close>

definition ex_alice :: CallParticipant where
  "ex_alice = \<lparr>socketId = ''s1'', userId = ''alice'', meetingId = ''r1'', peerId = ''pa'',
     username = ''Alice'', isMuted = False, isVideoOn = True, joinedAt = ''t0''\<rparr>"

definition ex_bob :: CallParticipant where
  "ex_bob = \<lparr>socketId = ''s2'', userId = ''bob'', meetingId = ''r1'', peerId = ''pb'',
     username = ''Bob'', isMuted = True, isVideoOn = False, joinedAt = ''t1''\<rparr>"

definition ex_registry :: registry where
  "ex_registry = \<lparr>callRooms = [(''r1'', [(''alice'', ex_alice), (''bob'', ex_bob)])],
     socketToUser = [(''s1'', (''r1'', ''alice'')), (''s2'', (''r1'', ''bob''))]\<rparr>"

definition ex_join :: "string \<Rightarrow> string \<Rightarrow> string \<Rightarrow> JoinCallPayload" where
  "ex_join m u p = \<lparr>join_meetingId = Some m, join_userId = Some u, join_peerId = Some p,
     join_username = Some u\<rparr>"

definition ex_leave :: "string \<Rightarrow> string \<Rightarrow> LeaveCallPayload" where
  "ex_leave m u = \<lparr>leave_meetingId = Some m, leave_userId = Some u\<rparr>"

definition ex_offer :: SignalPayload where
  "ex_offer = \<lparr>sig_meetingId = Some ''r1'', sig_fromUserId = Some ''bob'',
     sig_toUserId = Some ''alice'', sig_fromPeerId = Some ''pb'', sig_toPeerId = Some ''pa'',
     sig_signal = JObj ''sdp'', sig_signalType = Some ''offer''\<rparr>"

section \<open>The connection index\<close>

text \<open>
  Every entry of \<^verbatim>\<open>socketToUser\<close> names a room and a user for which a participant with
  that socket id is stored.
\<close>

definition index_consistent :: "registry \<Rightarrow> bool" where
  "index_consistent st =
     list_all (\<lambda>(sid, (m, u)).
        case participant_of st m u of None \<Rightarrow> False | Some p \<Rightarrow> socketId p = sid)
       (socketToUser st)"

section \<open>Sample event sequences\<close>

text \<open>Ten users join room \<open>r1\<close>, one after the other, each on its own connection.\<close>

definition ex_ten_joins :: "(string \<times> event) list" where
  "ex_ten_joins =
     [(''t0'', Join ''s0'' (ex_join ''r1'' ''u0'' ''p0'')),
      (''t1'', Join ''s1'' (ex_join ''r1'' ''u1'' ''p1'')),
      (''t2'', Join ''s2'' (ex_join ''r1'' ''u2'' ''p2'')),
      (''t3'', Join ''s3'' (ex_join ''r1'' ''u3'' ''p3'')),
      (''t4'', Join ''s4'' (ex_join ''r1'' ''u4'' ''p4'')),
      (''t5'', Join ''s5'' (ex_join ''r1'' ''u5'' ''p5'')),
      (''t6'', Join ''s6'' (ex_join ''r1'' ''u6'' ''p6'')),
      (''t7'', Join ''s7'' (ex_join ''r1'' ''u7'' ''p7'')),
      (''t8'', Join ''s8'' (ex_join ''r1'' ''u8'' ''p8'')),
      (''t9'', Join ''s9'' (ex_join ''r1'' ''u9'' ''p9''))]"

definition ex_full_room :: registry where
  "ex_full_room = run 10 empty_registry ex_ten_joins"

text \<open>One user joins room \<open>r1\<close> on connection \<open>s1\<close> and again on connection \<open>s2\<close>.\<close>

definition ex_reconnect :: "(string \<times> event) list" where
  "ex_reconnect =
     [(''t0'', Join ''s1'' (ex_join ''r1'' ''alice'' ''pa'')),
      (''t1'', Join ''s2'' (ex_join ''r1'' ''alice'' ''pa2''))]"

section \<open>Membership as the specification counts it\<close>

text \<open>
  The specification's account of who is in room \<open>m\<close>, independent of the registry: a
  join with a valid payload for \<open>m\<close> adds the user, unless the room already holds the
  configured maximum and the user is not in it; a leave for \<open>m\<close> removes the user;
  events of other rooms change nothing. \<open>spec_active_users\<close> runs this over a sequence
  of events.
\<close>

definition is_join_or_leave :: "event \<Rightarrow> bool" where
  "is_join_or_leave e = (case e of Join _ _ \<Rightarrow> True | Leave _ _ \<Rightarrow> True | _ \<Rightarrow> False)"

fun spec_active_step :: "int \<Rightarrow> string \<Rightarrow> string set \<Rightarrow> event \<Rightarrow> string set" where
  "spec_active_step MAX_PARTICIPANTS m A (Join sid payload) =
     (if truthy_str (join_meetingId payload) \<and> truthy_str (join_userId payload)
         \<and> truthy_str (join_peerId payload) \<and> join_meetingId payload = Some m
         \<and> (the (join_userId payload) \<in> A \<or> int (card A) < MAX_PARTICIPANTS)
      then insert (the (join_userId payload)) A else A)"
| "spec_active_step MAX_PARTICIPANTS m A (Leave sid payload) =
     (if truthy_str (leave_meetingId payload) \<and> truthy_str (leave_userId payload)
         \<and> leave_meetingId payload = Some m
      then A - {the (leave_userId payload)} else A)"
| "spec_active_step MAX_PARTICIPANTS m A _ = A"

fun spec_active_users :: "int \<Rightarrow> string \<Rightarrow> string set \<Rightarrow> (string \<times> event) list \<Rightarrow> string set" where
  "spec_active_users MAX_PARTICIPANTS m A [] = A"
| "spec_active_users MAX_PARTICIPANTS m A ((now, e) # es) =
     spec_active_users MAX_PARTICIPANTS m (spec_active_step MAX_PARTICIPANTS m A e) es"

text \<open>
  The registry's room \<open>m\<close> agrees with a set of users: an absent room stands for the
  empty set, a present room is not empty and its keys are distinct and are the set.
\<close>

definition room_matches :: "registry \<Rightarrow> string \<Rightarrow> string set \<Rightarrow> bool" where
  "room_matches st m A =
     (case Map_get (callRooms st) m of
        None \<Rightarrow> A = {}
      | Some room \<Rightarrow> room \<noteq> [] \<and> distinct (Map_keys room) \<and> set (Map_keys room) = A)"


text \<open>The user ids stored for a room, in insertion order (none when the room is absent).\<close>

definition room_keys :: "registry \<Rightarrow> string \<Rightarrow> string list" where
  "room_keys st m = (case Map_get (callRooms st) m of None \<Rightarrow> [] | Some room \<Rightarrow> Map_keys room)"


text \<open>
  Alice (connection \<open>s1\<close>) and bob (connection \<open>s2\<close>) join room \<open>r1\<close>; then connection
  \<open>s2\<close> sends a leave that names alice.
\<close>

definition ex_leave_names_other :: "(string \<times> event) list" where
  "ex_leave_names_other =
     [(''t0'', Join ''s1'' (ex_join ''r1'' ''alice'' ''pa'')),
      (''t1'', Join ''s2'' (ex_join ''r1'' ''bob'' ''pb'')),
      (''t2'', Leave ''s2'' (ex_leave ''r1'' ''alice''))]"

text \<open>Two users join room \<open>r1\<close> and leave it again.\<close>

definition ex_call :: "(string \<times> event) list" where
  "ex_call =
     [(''t0'', Join ''s1'' (ex_join ''r1'' ''alice'' ''pa'')),
      (''t1'', Join ''s2'' (ex_join ''r1'' ''bob'' ''pb'')),
      (''t2'', Leave ''s1'' (ex_leave ''r1'' ''alice'')),
      (''t3'', Leave ''s2'' (ex_leave ''r1'' ''bob''))]"

section \<open>Facts about the Map operations\<close>

lemma Map_get_set: "Map_get (Map_set m k v) k' = (if k' = k then Some v else Map_get m k')"
  by (induction m) auto

lemma Map_get_delete: "Map_get (Map_delete m k) k' = (if k' = k then None else Map_get m k')"
  by (induction m) auto

lemma length_Map_set:
  "length (Map_set m k v) = (if Map_get m k = None then Suc (length m) else length m)"
  by (induction m) (auto split: if_splits)

text \<open>The leave routine on a member and on a pair that is no member.\<close>

lemma handleUserLeave_member:
  assumes "Map_get (callRooms st) m = Some room" and "Map_get room u = Some p"
    and "m \<noteq> []" and "u \<noteq> []"
  shows "handleUserLeave now st sid (Some m) (Some u) =
     (\<lparr>callRooms = (if Map_delete room u = [] then Map_delete (callRooms st) m
                     else Map_set (callRooms st) m (Map_delete room u)),
       socketToUser = Map_delete (socketToUser st) sid\<rparr>,
      [Socket_leave sid m, Emit (Io_to m) (PEER_LEFT u (peerId p) (username p) now)])"
  using assms by (simp add: handleUserLeave_def Let_def Map_size_def)

lemma handleUserLeave_nonmember:
  assumes "participant_of st m u = None \<or> m = [] \<or> u = []"
  shows "handleUserLeave now st sid (Some m) (Some u) = (st, [])"
  using assms
  by (auto simp: handleUserLeave_def participant_of_def Let_def split: option.splits)

lemma participant_of_after_leave:
  assumes "Map_get (callRooms st) m = Some room"
  shows "participant_of
           \<lparr>callRooms = (if Map_delete room u = [] then Map_delete (callRooms st) m
                          else Map_set (callRooms st) m (Map_delete room u)),
            socketToUser = ix\<rparr> m' u'
         = (if (m', u') = (m, u) then None else participant_of st m' u')"
proof (cases "m' = m")
  case False
  then show ?thesis by (simp add: participant_of_def Map_get_set Map_get_delete)
next
  case True
  have "Map_get (Map_delete room u) u' = (if u' = u then None else Map_get room u')"
    by (rule Map_get_delete)
  then show ?thesis using True assms
    by (cases "Map_delete room u = []") (auto simp: participant_of_def Map_get_set Map_get_delete)
qed

lemmas ex_defs = ex_registry_def ex_alice_def ex_bob_def ex_join_def ex_leave_def ex_offer_def

lemmas handler_defs = on_JOIN_def join_room_def on_LEAVE_def on_DISCONNECT_def
  handleUserLeave_def Map_size_def Map_values_def or_Anonymous_def empty_registry_def
  Let_def

text \<open>
  The sample registry is the state after alice and bob have joined room \<open>r1\<close> and alice
  has unmuted and switched her camera on.
\<close>

lemma ex_registry_reachable:
  "run 10 empty_registry
     [(''t0'', Join ''s1'' \<lparr>join_meetingId = Some ''r1'', join_userId = Some ''alice'',
                           join_peerId = Some ''pa'', join_username = Some ''Alice''\<rparr>),
      (''t1'', Join ''s2'' \<lparr>join_meetingId = Some ''r1'', join_userId = Some ''bob'',
                           join_peerId = Some ''pb'', join_username = Some ''Bob''\<rparr>),
      (''t2'', Unmute ''s1'' \<lparr>mute_meetingId = Some ''r1'', mute_userId = Some ''alice''\<rparr>),
      (''t3'', VideoOn ''s1'' \<lparr>video_meetingId = Some ''r1'', video_userId = Some ''alice''\<rparr>)]
   = ex_registry"
  by (simp add: handler_defs ex_defs on_UNMUTE_def set_muted_def on_VIDEO_ON_def set_video_def)

section \<open>Failed joins\<close>

text \<open>
  C10: a join that answers the caller with an error event has one of the codes
  \<open>INVALID_PAYLOAD\<close> and \<open>ROOM_FULL\<close>, emits nothing else and, when the configured maximum
  is at least 1, returns the registry it was given: both maps are untouched, no room is
  created or deleted.
\<close>

theorem join_failure_leaves_registry:
  assumes "1 \<le> MAX_PARTICIPANTS"
    and "Emit (Socket_emit sid) (ERROR c)
           \<in> set (snd (on_JOIN MAX_PARTICIPANTS now1 now2 st sid payload))"
  shows "on_JOIN MAX_PARTICIPANTS now1 now2 st sid payload
           = (st, [Emit (Socket_emit sid) (ERROR c)])
         \<and> (c = INVALID_PAYLOAD \<or> c = ROOM_FULL)"
  using assms
  by (auto simp: on_JOIN_def join_room_def Let_def Map_size_def split: if_splits option.splits)

theorem join_failure_leaves_registry_witness:
  "(1::int) \<le> 2
   \<and> Emit (Socket_emit ''s3'') (ERROR ROOM_FULL)
        \<in> set (snd (on_JOIN 2 ''t2'' ''t3'' ex_registry ''s3'' (ex_join ''r1'' ''carol'' ''pc'')))
   \<and> on_JOIN 2 ''t2'' ''t3'' ex_registry ''s3'' (ex_join ''r1'' ''carol'' ''pc'')
       = (ex_registry, [Emit (Socket_emit ''s3'') (ERROR ROOM_FULL)])"
proof -
  have h: "Emit (Socket_emit ''s3'') (ERROR ROOM_FULL)
        \<in> set (snd (on_JOIN 2 ''t2'' ''t3'' ex_registry ''s3'' (ex_join ''r1'' ''carol'' ''pc'')))"
    by (simp add: on_JOIN_def join_room_def Map_size_def ex_defs)
  from join_failure_leaves_registry[OF _ h] h show ?thesis by simp
qed

section \<open>Mute and unmute\<close>

text \<open>
  C9: for a participant that exists, \<^verbatim>\<open>call:mute\<close> stores \<open>isMuted = True\<close> and
  \<^verbatim>\<open>call:unmute\<close> stores \<open>isMuted = False\<close>, whatever the flag was before, and one
  mute-status event with the new value goes to the whole Socket.IO room (\<^verbatim>\<open>io.to\<close>, the
  sender included). When a field is missing or the room or the user does not exist, the
  registry is returned as it was and nothing is emitted.
\<close>

theorem mute_unmute_sets_flag_and_broadcasts:
  "(participant_of st m u = Some p \<and> m \<noteq> [] \<and> u \<noteq> [] \<longrightarrow>
      (let payload = \<lparr>mute_meetingId = Some m, mute_userId = Some u\<rparr>;
           muted = on_MUTE now st sid payload;
           unmuted = on_UNMUTE now st sid payload
       in participant_of (fst muted) m u = Some (p\<lparr>isMuted := True\<rparr>)
          \<and> snd muted = [Emit (Io_to m) (MUTE_STATUS u (username p) True now)]
          \<and> participant_of (fst unmuted) m u = Some (p\<lparr>isMuted := False\<rparr>)
          \<and> snd unmuted = [Emit (Io_to m) (MUTE_STATUS u (username p) False now)]))
   \<and> ((\<not> truthy_str (mute_meetingId pl) \<or> \<not> truthy_str (mute_userId pl)
        \<or> participant_of st (the (mute_meetingId pl)) (the (mute_userId pl)) = None) \<longrightarrow>
         on_MUTE now st sid pl = (st, []) \<and> on_UNMUTE now st sid pl = (st, []))"
  by (auto simp: on_MUTE_def on_UNMUTE_def set_muted_def participant_of_def Let_def Map_get_set
           split: option.splits)

theorem mute_unmute_sets_flag_and_broadcasts_witness:
  "participant_of ex_registry ''r1'' ''bob'' = Some ex_bob
   \<and> isMuted ex_bob
   \<and> participant_of
        (fst (on_MUTE ''t2'' ex_registry ''s2'' \<lparr>mute_meetingId = Some ''r1'', mute_userId = Some ''bob''\<rparr>))
        ''r1'' ''bob'' = Some ex_bob
   \<and> snd (on_MUTE ''t2'' ex_registry ''s2'' \<lparr>mute_meetingId = Some ''r1'', mute_userId = Some ''bob''\<rparr>)
       = [Emit (Io_to ''r1'') (MUTE_STATUS ''bob'' ''Bob'' True ''t2'')]
   \<and> participant_of
        (fst (on_UNMUTE ''t2'' ex_registry ''s2'' \<lparr>mute_meetingId = Some ''r1'', mute_userId = Some ''bob''\<rparr>))
        ''r1'' ''bob'' = Some (ex_bob\<lparr>isMuted := False\<rparr>)
   \<and> participant_of ex_registry ''r1'' ''carol'' = None
   \<and> on_MUTE ''t2'' ex_registry ''s3'' \<lparr>mute_meetingId = Some ''r1'', mute_userId = Some ''carol''\<rparr>
       = (ex_registry, [])"
proof -
  have a: "participant_of ex_registry ''r1'' ''bob'' = Some ex_bob"
    by (simp add: participant_of_def ex_registry_def)
  have b: "participant_of ex_registry ''r1'' ''carol'' = None"
    by (simp add: participant_of_def ex_registry_def)
  have c: "ex_bob\<lparr>isMuted := True\<rparr> = ex_bob" "isMuted ex_bob" "username ex_bob = ''Bob''"
    by (simp_all add: ex_bob_def)
  from mute_unmute_sets_flag_and_broadcasts
         [of ex_registry "''r1''" "''bob''" ex_bob "''t2''" "''s2''"
            "\<lparr>mute_meetingId = Some ''r1'', mute_userId = Some ''carol''\<rparr>"]
       mute_unmute_sets_flag_and_broadcasts
         [of ex_registry "''r1''" "''bob''" ex_bob "''t2''" "''s3''"
            "\<lparr>mute_meetingId = Some ''r1'', mute_userId = Some ''carol''\<rparr>"]
       a b c
  show ?thesis by (simp add: Let_def)
qed

section \<open>Leaving and disconnecting\<close>

text \<open>
  C8: a leave for \<open>(m, u)\<close> by a member removes that one membership and nothing else:
  every other participant is kept, every other room is kept, room \<open>m\<close> loses the entry of
  \<open>u\<close> and is deleted when that was its last, the connection index loses the entry of the
  calling connection only, and exactly one peer-left event is emitted. A second leave for
  the same pair (from any connection), and a disconnect of a connection that the index
  resolves to \<open>(m, u)\<close> or to nothing, among them the connection that sent the leave,
  then return the registry unchanged and emit nothing. A leave for a pair that is no
  member changes nothing and emits nothing in the first place.
\<close>

theorem repeated_leave_is_noop:
  "(let pl = \<lparr>leave_meetingId = Some m, leave_userId = Some u\<rparr>;
        first = on_LEAVE now st sid pl;
        st1 = fst first
    in on_LEAVE now' st1 sid' pl = (st1, [])
       \<and> (Map_get (socketToUser st1) sid' = None \<or> Map_get (socketToUser st1) sid' = Some (m, u)
            \<longrightarrow> on_DISCONNECT now' st1 sid' = (st1, []))
       \<and> (Map_get (socketToUser st) sid = None \<or> Map_get (socketToUser st) sid = Some (m, u)
            \<longrightarrow> on_DISCONNECT now' st1 sid = (st1, []))
       \<and> (\<forall>p. participant_of st m u = Some p \<and> m \<noteq> [] \<and> u \<noteq> [] \<longrightarrow>
              snd first = [Socket_leave sid m,
                           Emit (Io_to m) (PEER_LEFT u (peerId p) (username p) now)]
              \<and> participant_of st1 m u = None
              \<and> (\<forall>m' u'. (m', u') \<noteq> (m, u) \<longrightarrow>
                     participant_of st1 m' u' = participant_of st m' u')
              \<and> (\<forall>m'. m' \<noteq> m \<longrightarrow> Map_get (callRooms st1) m' = Map_get (callRooms st) m')
              \<and> (\<forall>room. Map_get (callRooms st) m = Some room \<longrightarrow>
                     Map_get (callRooms st1) m
                       = (if Map_delete room u = [] then None else Some (Map_delete room u)))
              \<and> socketToUser st1 = Map_delete (socketToUser st) sid
              \<and> on_DISCONNECT now' st1 sid = (st1, []))
       \<and> (participant_of st m u = None \<longrightarrow> first = (st, [])))"
proof -
  define pl where "pl = \<lparr>leave_meetingId = Some m, leave_userId = Some u\<rparr>"
  define st1 where "st1 = fst (on_LEAVE now st sid pl)"
  have leave: "on_LEAVE t s c pl = handleUserLeave t s c (Some m) (Some u)" for t s c
    by (simp add: on_LEAVE_def pl_def)
  have gone: "participant_of st1 m u = None \<or> m = [] \<or> u = []"
  proof (cases "\<exists>p. participant_of st m u = Some p \<and> m \<noteq> [] \<and> u \<noteq> []")
    case False
    then have "st1 = st" unfolding st1_def leave
      by (subst handleUserLeave_nonmember) auto
    then show ?thesis using False by auto
  next
    case True
    then obtain room p where r: "Map_get (callRooms st) m = Some room" "Map_get room u = Some p"
        "m \<noteq> []" "u \<noteq> []"
      by (auto simp: participant_of_def split: option.splits)
    show ?thesis unfolding st1_def leave handleUserLeave_member[OF r]
      by (simp add: participant_of_after_leave[OF r(1)])
  qed
  have second: "on_LEAVE now' st1 sid' pl = (st1, [])"
    unfolding leave using gone by (rule handleUserLeave_nonmember)
  have disc: "on_DISCONNECT now' st1 c = (st1, [])"
    if "Map_get (socketToUser st1) c = None \<or> Map_get (socketToUser st1) c = Some (m, u)" for c
  proof (cases "Map_get (socketToUser st1) c")
    case None
    then show ?thesis by (simp add: on_DISCONNECT_def)
  next
    case (Some a)
    then have "a = (m, u)" using that by simp
    then show ?thesis using Some gone
      by (simp add: on_DISCONNECT_def handleUserLeave_nonmember)
  qed
  have same_conn: "on_DISCONNECT now' st1 sid = (st1, [])"
    if "Map_get (socketToUser st) sid = None \<or> Map_get (socketToUser st) sid = Some (m, u)"
  proof (cases "\<exists>p. participant_of st m u = Some p \<and> m \<noteq> [] \<and> u \<noteq> []")
    case False
    then have "st1 = st" unfolding st1_def leave
      by (subst handleUserLeave_nonmember) auto
    then show ?thesis using that disc[of sid] by simp
  next
    case True
    then obtain room p where r: "Map_get (callRooms st) m = Some room" "Map_get room u = Some p"
        "m \<noteq> []" "u \<noteq> []"
      by (auto simp: participant_of_def split: option.splits)
    have "Map_get (socketToUser st1) sid = None"
      unfolding st1_def leave handleUserLeave_member[OF r] by (simp add: Map_get_delete)
    then show ?thesis using disc[of sid] by simp
  qed
  have member: "snd (on_LEAVE now st sid pl)
                  = [Socket_leave sid m, Emit (Io_to m) (PEER_LEFT u (peerId p) (username p) now)]
              \<and> participant_of st1 m u = None
              \<and> (\<forall>m' u'. (m', u') \<noteq> (m, u) \<longrightarrow>
                     participant_of st1 m' u' = participant_of st m' u')
              \<and> (\<forall>m'. m' \<noteq> m \<longrightarrow> Map_get (callRooms st1) m' = Map_get (callRooms st) m')
              \<and> (\<forall>room. Map_get (callRooms st) m = Some room \<longrightarrow>
                     Map_get (callRooms st1) m
                       = (if Map_delete room u = [] then None else Some (Map_delete room u)))
              \<and> socketToUser st1 = Map_delete (socketToUser st) sid
              \<and> on_DISCONNECT now' st1 sid = (st1, [])"
    if m: "participant_of st m u = Some p" "m \<noteq> []" "u \<noteq> []" for p
  proof -
    from m obtain room where r: "Map_get (callRooms st) m = Some room" "Map_get room u = Some p"
        "m \<noteq> []" "u \<noteq> []"
      by (auto simp: participant_of_def split: option.splits)
    note eq = handleUserLeave_member[OF r, of now sid]
    have s1: "st1 = \<lparr>callRooms = (if Map_delete room u = [] then Map_delete (callRooms st) m
                     else Map_set (callRooms st) m (Map_delete room u)),
                   socketToUser = Map_delete (socketToUser st) sid\<rparr>"
      unfolding st1_def leave eq by simp
    have a: "snd (on_LEAVE now st sid pl)
               = [Socket_leave sid m, Emit (Io_to m) (PEER_LEFT u (peerId p) (username p) now)]"
      unfolding leave eq by simp
    have b: "participant_of st1 m' u' = (if (m', u') = (m, u) then None else participant_of st m' u')"
      for m' u'
      unfolding s1 by (rule participant_of_after_leave[OF r(1)])
    have c: "Map_get (callRooms st1) m' = Map_get (callRooms st) m'" if "m' \<noteq> m" for m'
      unfolding s1 using that by (simp add: Map_get_set Map_get_delete)
    have d: "Map_get (callRooms st1) m
               = (if Map_delete room u = [] then None else Some (Map_delete room u))"
      unfolding s1 by (simp add: Map_get_set Map_get_delete)
    have e: "socketToUser st1 = Map_delete (socketToUser st) sid"
      unfolding s1 by simp
    have f: "on_DISCONNECT now' st1 sid = (st1, [])"
      using disc[of sid] e by (simp add: Map_get_delete)
    show ?thesis using a b c d e f r(1) by simp
  qed
  have nonmember: "on_LEAVE now st sid pl = (st, [])" if "participant_of st m u = None"
    unfolding leave using that by (simp add: handleUserLeave_nonmember)
  show ?thesis
    unfolding Let_def pl_def[symmetric] st1_def[symmetric]
    using second disc same_conn member nonmember by blast
qed


theorem repeated_leave_is_noop_witness:
  "participant_of ex_registry ''r1'' ''bob'' = Some ex_bob
   \<and> Map_get (socketToUser ex_registry) ''s2'' = Some (''r1'', ''bob'')
   \<and> snd (on_LEAVE ''t2'' ex_registry ''s2'' (ex_leave ''r1'' ''bob''))
       = [Socket_leave ''s2'' ''r1'', Emit (Io_to ''r1'') (PEER_LEFT ''bob'' ''pb'' ''Bob'' ''t2'')]
   \<and> participant_of (fst (on_LEAVE ''t2'' ex_registry ''s2'' (ex_leave ''r1'' ''bob'')))
        ''r1'' ''bob'' = None
   \<and> participant_of (fst (on_LEAVE ''t2'' ex_registry ''s2'' (ex_leave ''r1'' ''bob'')))
        ''r1'' ''alice'' = Some ex_alice
   \<and> Map_get (callRooms (fst (on_LEAVE ''t2'' ex_registry ''s2'' (ex_leave ''r1'' ''bob''))))
        ''r1'' = Some [(''alice'', ex_alice)]
   \<and> socketToUser (fst (on_LEAVE ''t2'' ex_registry ''s2'' (ex_leave ''r1'' ''bob'')))
       = [(''s1'', (''r1'', ''alice''))]
   \<and> on_LEAVE ''t3'' (fst (on_LEAVE ''t2'' ex_registry ''s2'' (ex_leave ''r1'' ''bob''))) ''s2''
        (ex_leave ''r1'' ''bob'')
       = (fst (on_LEAVE ''t2'' ex_registry ''s2'' (ex_leave ''r1'' ''bob'')), [])
   \<and> on_DISCONNECT ''t3'' (fst (on_LEAVE ''t2'' ex_registry ''s2'' (ex_leave ''r1'' ''bob''))) ''s2''
       = (fst (on_LEAVE ''t2'' ex_registry ''s2'' (ex_leave ''r1'' ''bob'')), [])"
proof -
  have a: "participant_of ex_registry ''r1'' ''bob'' = Some ex_bob"
          "participant_of ex_registry ''r1'' ''alice'' = Some ex_alice"
    by (simp_all add: participant_of_def ex_registry_def)
  have b: "Map_get (socketToUser ex_registry) ''s2'' = Some (''r1'', ''bob'')"
          "Map_delete (socketToUser ex_registry) ''s2'' = [(''s1'', (''r1'', ''alice''))]"
          "Map_get (callRooms ex_registry) ''r1'' = Some [(''alice'', ex_alice), (''bob'', ex_bob)]"
    by (simp_all add: ex_registry_def)
  have c: "peerId ex_bob = ''pb''" "username ex_bob = ''Bob''"
    by (simp_all add: ex_bob_def)
  note th = repeated_leave_is_noop
         [of "''r1''" "''bob''" "''t2''" ex_registry "''s2''" "''t3''" "''s2''",
          unfolded Let_def, folded ex_leave_def]
  have second: "on_LEAVE ''t3'' (fst (on_LEAVE ''t2'' ex_registry ''s2'' (ex_leave ''r1'' ''bob'')))
                  ''s2'' (ex_leave ''r1'' ''bob'')
                = (fst (on_LEAVE ''t2'' ex_registry ''s2'' (ex_leave ''r1'' ''bob'')), [])"
    using th by blast
  have m: "snd (on_LEAVE ''t2'' ex_registry ''s2'' (ex_leave ''r1'' ''bob''))
             = [Socket_leave ''s2'' ''r1'',
                Emit (Io_to ''r1'') (PEER_LEFT ''bob'' (peerId ex_bob) (username ex_bob) ''t2'')]
        \<and> participant_of (fst (on_LEAVE ''t2'' ex_registry ''s2'' (ex_leave ''r1'' ''bob'')))
             ''r1'' ''bob'' = None
        \<and> (\<forall>m' u'. (m', u') \<noteq> (''r1'', ''bob'') \<longrightarrow>
              participant_of (fst (on_LEAVE ''t2'' ex_registry ''s2'' (ex_leave ''r1'' ''bob'')))
                m' u' = participant_of ex_registry m' u')
        \<and> (\<forall>room. Map_get (callRooms ex_registry) ''r1'' = Some room \<longrightarrow>
              Map_get (callRooms (fst (on_LEAVE ''t2'' ex_registry ''s2'' (ex_leave ''r1'' ''bob''))))
                ''r1'' = (if Map_delete room ''bob'' = [] then None
                          else Some (Map_delete room ''bob'')))
        \<and> socketToUser (fst (on_LEAVE ''t2'' ex_registry ''s2'' (ex_leave ''r1'' ''bob'')))
            = Map_delete (socketToUser ex_registry) ''s2''
        \<and> on_DISCONNECT ''t3'' (fst (on_LEAVE ''t2'' ex_registry ''s2'' (ex_leave ''r1'' ''bob'')))
             ''s2''
            = (fst (on_LEAVE ''t2'' ex_registry ''s2'' (ex_leave ''r1'' ''bob'')), [])"
    using th a(1) by blast
  have alice: "participant_of (fst (on_LEAVE ''t2'' ex_registry ''s2'' (ex_leave ''r1'' ''bob'')))
                 ''r1'' ''alice'' = Some ex_alice"
    using m a(2) by simp
  have room: "Map_get (callRooms (fst (on_LEAVE ''t2'' ex_registry ''s2'' (ex_leave ''r1'' ''bob''))))
                ''r1'' = Some [(''alice'', ex_alice)]"
    using m b(3) by simp
  from a(1) b(1) m c alice room b(2) second show ?thesis by simp
qed

text \<open>
  When the connection index resolves a closing connection to \<open>(m, u)\<close>, the disconnect
  handler returns what the leave handler returns on that connection for \<open>(m, u)\<close>.
\<close>

lemma disconnect_resolved_is_leave:
  assumes "Map_get (socketToUser st) sid = Some (m, u)"
  shows "on_DISCONNECT now st sid
           = on_LEAVE now st sid \<lparr>leave_meetingId = Some m, leave_userId = Some u\<rparr>
       \<and> (\<forall>room p. Map_get (callRooms st) m = Some room \<and> Map_get room u = Some p
                     \<and> m \<noteq> [] \<and> u \<noteq> [] \<longrightarrow>
            (let st' = fst (on_DISCONNECT now st sid)
             in snd (on_DISCONNECT now st sid) =
                  [Socket_leave sid m,
                   Emit (Io_to m) (PEER_LEFT u (peerId p) (username p) now)]
                \<and> participant_of st' m u = None
                \<and> Map_get (socketToUser st') sid = None
                \<and> Map_get (callRooms st') m =
                     (if Map_delete room u = [] then None else Some (Map_delete room u))))"
  using assms
  by (auto simp: on_LEAVE_def on_DISCONNECT_def handleUserLeave_def participant_of_def Let_def
                 Map_get_set Map_get_delete Map_size_def)

text \<open>
  C7: the disconnect handler finds the user only through the connection index. A
  participant whose connection has no index entry is not removed when that connection
  closes: the disconnect changes nothing and emits nothing, while a leave for the same
  room and user removes the participant and emits peer-left.
\<close>

theorem disconnect_without_index_entry_keeps_member:
  assumes "participant_of st m u = Some p" and "socketId p = sid"
    and "Map_get (socketToUser st) sid = None" and "m \<noteq> []" and "u \<noteq> []"
  shows "on_DISCONNECT now st sid = (st, [])
       \<and> participant_of (fst (on_DISCONNECT now st sid)) m u = Some p
       \<and> participant_of
            (fst (on_LEAVE now st sid \<lparr>leave_meetingId = Some m, leave_userId = Some u\<rparr>)) m u
           = None
       \<and> snd (on_LEAVE now st sid \<lparr>leave_meetingId = Some m, leave_userId = Some u\<rparr>)
           = [Socket_leave sid m, Emit (Io_to m) (PEER_LEFT u (peerId p) (username p) now)]"
proof -
  from assms obtain room where r: "Map_get (callRooms st) m = Some room" "Map_get room u = Some p"
      "m \<noteq> []" "u \<noteq> []"
    by (auto simp: participant_of_def split: option.splits)
  have d: "on_DISCONNECT now st sid = (st, [])"
    using assms(3) by (simp add: on_DISCONNECT_def)
  have l: "on_LEAVE now st sid \<lparr>leave_meetingId = Some m, leave_userId = Some u\<rparr>
             = handleUserLeave now st sid (Some m) (Some u)"
    by (simp add: on_LEAVE_def)
  show ?thesis
    unfolding l handleUserLeave_member[OF r] d
    using assms(1) by (simp add: participant_of_after_leave[OF r(1)])
qed

text \<open>
  The failing sequence: alice and bob are in room \<open>r1\<close>; a leave that names alice arrives
  on bob's connection \<open>s2\<close> and deletes the index entry of \<open>s2\<close>. Bob is still in the room
  on \<open>s2\<close>, and the disconnect of \<open>s2\<close> leaves him there.
\<close>

theorem disconnect_without_index_entry_keeps_member_witness:
  "participant_of (run 10 empty_registry ex_leave_names_other) ''r1'' ''bob''
     = Some \<lparr>socketId = ''s2'', userId = ''bob'', meetingId = ''r1'', peerId = ''pb'',
              username = ''bob'', isMuted = True, isVideoOn = False, joinedAt = ''t1''\<rparr>
   \<and> Map_get (socketToUser (run 10 empty_registry ex_leave_names_other)) ''s2'' = None
   \<and> on_DISCONNECT ''t3'' (run 10 empty_registry ex_leave_names_other) ''s2''
       = (run 10 empty_registry ex_leave_names_other, [])
   \<and> participant_of
        (fst (on_LEAVE ''t3'' (run 10 empty_registry ex_leave_names_other) ''s2''
               (ex_leave ''r1'' ''bob''))) ''r1'' ''bob'' = None
   \<and> snd (on_LEAVE ''t3'' (run 10 empty_registry ex_leave_names_other) ''s2''
               (ex_leave ''r1'' ''bob''))
       = [Socket_leave ''s2'' ''r1'', Emit (Io_to ''r1'') (PEER_LEFT ''bob'' ''pb'' ''bob'' ''t3'')]"
proof -
  have a: "participant_of (run 10 empty_registry ex_leave_names_other) ''r1'' ''bob''
     = Some \<lparr>socketId = ''s2'', userId = ''bob'', meetingId = ''r1'', peerId = ''pb'',
              username = ''bob'', isMuted = True, isVideoOn = False, joinedAt = ''t1''\<rparr>"
    by (simp add: ex_leave_names_other_def ex_join_def ex_leave_def participant_of_def
                  handler_defs)
  have b: "Map_get (socketToUser (run 10 empty_registry ex_leave_names_other)) ''s2'' = None"
    by (simp add: ex_leave_names_other_def ex_join_def ex_leave_def handler_defs)
  from disconnect_without_index_entry_keeps_member[OF a _ b, of "''t3''"] a b
  show ?thesis by (simp add: ex_leave_def)
qed

section \<open>Signal relay\<close>




section \<open>Reconnection\<close>

text \<open>
  C5: a join whose \<open>userId\<close> is already a member of the room leaves the size of every room
  unchanged, leaves every other participant unchanged, and changes at most the \<open>socketId\<close>
  and \<open>peerId\<close> of the member's entry: \<open>joinedAt\<close>, \<open>isMuted\<close>, \<open>isVideoOn\<close>, \<open>username\<close>
  (and \<open>userId\<close>, \<open>meetingId\<close>) are kept. When the payload is valid and the room holds fewer
  than the configured maximum, the entry gets the calling socket id and the payload's
  peer id.
\<close>

theorem reconnection_preserves_participant:
  assumes "participant_of st m u = Some p"
    and "join_meetingId payload = Some m" and "join_userId payload = Some u"
  shows "(let st' = fst (on_JOIN MAX_PARTICIPANTS now1 now2 st sid payload)
          in room_size st' m = room_size st m
             \<and> (\<exists>s' p'. participant_of st' m u = Some (p\<lparr>socketId := s', peerId := p'\<rparr>))
             \<and> (\<forall>m' u'. (m', u') \<noteq> (m, u) \<longrightarrow> participant_of st' m' u' = participant_of st m' u')
             \<and> (\<forall>m'. room_size st' m' = room_size st m')
             \<and> (truthy_str (join_meetingId payload) \<and> truthy_str (join_userId payload)
                  \<and> truthy_str (join_peerId payload) \<and> int (room_size st m) < MAX_PARTICIPANTS \<longrightarrow>
                   participant_of st' m u
                     = Some (p\<lparr>socketId := sid, peerId := the (join_peerId payload)\<rparr>)))"
proof -
  from assms(1) obtain room
    where room: "Map_get (callRooms st) m = Some room" "Map_get room u = Some p"
    by (auto simp: participant_of_def split: option.splits)
  have same: "\<exists>s' p'. p = p\<lparr>socketId := s', peerId := p'\<rparr>"
    by (rule exI[of _ "socketId p"], rule exI[of _ "peerId p"]) simp
  show ?thesis
  proof (cases "truthy_str (join_meetingId payload) \<and> truthy_str (join_userId payload)
                  \<and> truthy_str (join_peerId payload) \<and> int (room_size st m) < MAX_PARTICIPANTS")
    case False
    then have "fst (on_JOIN MAX_PARTICIPANTS now1 now2 st sid payload) = st"
      using room assms(2,3)
      by (auto simp: on_JOIN_def join_room_def Let_def room_size_def)
    then show ?thesis using False assms(1) same by (auto simp: Let_def)
  next
    case True
    then have "fst (on_JOIN MAX_PARTICIPANTS now1 now2 st sid payload) =
       \<lparr>callRooms = Map_set (callRooms st) m
                      (Map_set room u (p\<lparr>socketId := sid, peerId := the (join_peerId payload)\<rparr>)),
        socketToUser = Map_set (socketToUser st) sid (m, u)\<rparr>"
      using room assms(2,3)
      by (auto simp: on_JOIN_def join_room_def Let_def room_size_def)
    then show ?thesis using True room
      by (auto simp: Let_def participant_of_def room_size_def Map_get_set length_Map_set
                     Map_size_def)
  qed
qed

theorem reconnection_preserves_participant_witness:
  "participant_of ex_registry ''r1'' ''alice'' = Some ex_alice
   \<and> int (room_size ex_registry ''r1'') < 10
   \<and> room_size (fst (on_JOIN 10 ''t2'' ''t3'' ex_registry ''s9'' (ex_join ''r1'' ''alice'' ''pa2'')))
        ''r1'' = 2
   \<and> participant_of (fst (on_JOIN 10 ''t2'' ''t3'' ex_registry ''s9'' (ex_join ''r1'' ''alice'' ''pa2'')))
        ''r1'' ''alice''
       = Some \<lparr>socketId = ''s9'', userId = ''alice'', meetingId = ''r1'', peerId = ''pa2'',
                username = ''Alice'', isMuted = False, isVideoOn = True, joinedAt = ''t0''\<rparr>"
proof -
  have a: "participant_of ex_registry ''r1'' ''alice'' = Some ex_alice"
    by (simp add: participant_of_def ex_registry_def)
  have b: "room_size ex_registry ''r1'' = 2"
    by (simp add: room_size_def Map_size_def ex_registry_def)
  have c: "join_meetingId (ex_join ''r1'' ''alice'' ''pa2'') = Some ''r1''"
          "join_userId (ex_join ''r1'' ''alice'' ''pa2'') = Some ''alice''"
          "join_peerId (ex_join ''r1'' ''alice'' ''pa2'') = Some ''pa2''"
    by (simp_all add: ex_join_def)
  from reconnection_preserves_participant[OF a c(1) c(2), of 10 "''t2''" "''t3''" "''s9''"] a b c
  show ?thesis by (simp add: Let_def ex_alice_def)
qed

section \<open>Signal validation\<close>

text \<open>
  C3 as stated fails: a signal without \<open>fromUserId\<close> whose other fields are present is
  not answered with \<open>INVALID_SIGNAL\<close>; it is forwarded to the target.
\<close>

theorem signal_without_fromUserId_is_forwarded:
  "sig_fromUserId (ex_offer\<lparr>sig_fromUserId := None\<rparr>) = None
   \<and> on_SIGNAL ex_registry ''s2'' (Some (ex_offer\<lparr>sig_fromUserId := None\<rparr>)) =
       (ex_registry,
        [Emit (Io_to ''s1'')
           (SIGNAL \<lparr>fwd_meetingId = ''r1'', fwd_fromUserId = Some ''bob'', fwd_toUserId = ''alice'',
                    fwd_fromPeerId = Some ''pb'', fwd_toPeerId = Some ''pa'',
                    fwd_signal = JObj ''sdp'', fwd_signalType = Some ''offer''\<rparr>)])
   \<and> Emit (Socket_emit ''s2'') (ERROR INVALID_SIGNAL)
        \<notin> set (snd (on_SIGNAL ex_registry ''s2'' (Some (ex_offer\<lparr>sig_fromUserId := None\<rparr>))))"
  by (simp add: on_SIGNAL_def Let_def ex_defs)

text \<open>
  C3, amended: for a signal event that carries a payload object, the handler answers
  \<open>INVALID_SIGNAL\<close> exactly when \<open>meetingId\<close>, \<open>toUserId\<close> or \<open>signal\<close> is missing or
  falsy; it then changes nothing and forwards nothing. The payload's \<open>fromUserId\<close> and
  \<open>fromPeerId\<close> are never read: the outcome is the same for every value of the two
  fields. A signal event without a payload object is answered with \<open>SIGNAL_ERROR\<close>, not
  with \<open>INVALID_SIGNAL\<close>, and changes nothing.
\<close>

theorem invalid_signal_iff:
  "(Emit (Socket_emit sid) (ERROR INVALID_SIGNAL) \<in> set (snd (on_SIGNAL st sid (Some payload)))
      \<longleftrightarrow> \<not> truthy_str (sig_meetingId payload) \<or> \<not> truthy_str (sig_toUserId payload)
           \<or> \<not> truthy (sig_signal payload))
   \<and> (\<not> truthy_str (sig_meetingId payload) \<or> \<not> truthy_str (sig_toUserId payload)
        \<or> \<not> truthy (sig_signal payload)
       \<longrightarrow> on_SIGNAL st sid (Some payload)
             = (st, [Emit (Socket_emit sid) (ERROR INVALID_SIGNAL)]))
   \<and> on_SIGNAL st sid (Some (payload\<lparr>sig_fromUserId := f, sig_fromPeerId := fp\<rparr>))
       = on_SIGNAL st sid (Some payload)
   \<and> on_SIGNAL st sid None = (st, [Emit (Socket_emit sid) (ERROR SIGNAL_ERROR)])"
  by (auto simp: on_SIGNAL_def Let_def split: option.splits)

theorem invalid_signal_iff_witness:
  "\<not> truthy_str (sig_toUserId (ex_offer\<lparr>sig_toUserId := Some ''''\<rparr>))
   \<and> on_SIGNAL ex_registry ''s2'' (Some (ex_offer\<lparr>sig_toUserId := Some ''''\<rparr>))
       = (ex_registry, [Emit (Socket_emit ''s2'') (ERROR INVALID_SIGNAL)])
   \<and> \<not> truthy (sig_signal (ex_offer\<lparr>sig_signal := JNull\<rparr>))
   \<and> Emit (Socket_emit ''s2'') (ERROR INVALID_SIGNAL)
        \<in> set (snd (on_SIGNAL ex_registry ''s2'' (Some (ex_offer\<lparr>sig_signal := JNull\<rparr>))))
   \<and> on_SIGNAL ex_registry ''s2'' None
       = (ex_registry, [Emit (Socket_emit ''s2'') (ERROR SIGNAL_ERROR)])"
proof -
  have a: "\<not> truthy_str (sig_toUserId (ex_offer\<lparr>sig_toUserId := Some ''''\<rparr>))"
          "\<not> truthy (sig_signal (ex_offer\<lparr>sig_signal := JNull\<rparr>))"
    by simp_all
  from invalid_signal_iff[of "''s2''" ex_registry "ex_offer\<lparr>sig_toUserId := Some ''''\<rparr>"]
       invalid_signal_iff[of "''s2''" ex_registry "ex_offer\<lparr>sig_signal := JNull\<rparr>"] a
  show ?thesis by blast
qed

section \<open>Reconnection to a full room\<close>

text \<open>
  C1: the capacity check of the join handler comes before the membership check and does not
  look at the user: in a room that holds the configured maximum, a valid join is answered
  with \<open>ROOM_FULL\<close> also when the user is a member already, and the member's entry keeps
  its old socket id.
\<close>

theorem full_room_rejects_member:
  assumes "participant_of st m u = Some p" and "MAX_PARTICIPANTS \<le> int (room_size st m)"
    and "m \<noteq> []" and "u \<noteq> []" and "pid \<noteq> []"
  shows "on_JOIN MAX_PARTICIPANTS now1 now2 st sid
           \<lparr>join_meetingId = Some m, join_userId = Some u, join_peerId = Some pid,
            join_username = name\<rparr>
         = (st, [Emit (Socket_emit sid) (ERROR ROOM_FULL)])"
  using assms
  by (auto simp: on_JOIN_def join_room_def participant_of_def room_size_def Let_def
           split: option.splits)

theorem full_room_rejects_member_witness:
  "participant_of ex_full_room ''r1'' ''u0''
     = Some \<lparr>socketId = ''s0'', userId = ''u0'', meetingId = ''r1'', peerId = ''p0'',
              username = ''u0'', isMuted = True, isVideoOn = False, joinedAt = ''t0''\<rparr>
   \<and> room_size ex_full_room ''r1'' = 10
   \<and> on_JOIN 10 ''t10'' ''t11'' ex_full_room ''s10'' (ex_join ''r1'' ''u0'' ''p0b'')
       = (ex_full_room, [Emit (Socket_emit ''s10'') (ERROR ROOM_FULL)])"
proof -
  have a: "participant_of ex_full_room ''r1'' ''u0''
     = Some \<lparr>socketId = ''s0'', userId = ''u0'', meetingId = ''r1'', peerId = ''p0'',
              username = ''u0'', isMuted = True, isVideoOn = False, joinedAt = ''t0''\<rparr>"
    by (simp add: ex_full_room_def ex_ten_joins_def ex_join_def participant_of_def handler_defs)
  have b: "room_size ex_full_room ''r1'' = 10"
    by (simp add: ex_full_room_def ex_ten_joins_def ex_join_def room_size_def handler_defs)
  from full_room_rejects_member[OF a, of 10 "''p0b''" "''t10''" "''t11''" "''s10''" "Some ''u0''"] a b
  show ?thesis by (simp add: ex_join_def)
qed

section \<open>The connection index after a reconnection\<close>

text \<open>
  C2: a user joins on connection \<open>s1\<close> and joins again on connection \<open>s2\<close>. The index then
  still maps \<open>s1\<close> to the user, whose entry now carries \<open>s2\<close>. When \<open>s1\<close> closes, the
  participant is removed through the stale entry, the room is deleted, and the entry of
  \<open>s2\<close> stays behind for a participant that no longer exists.
\<close>

theorem reconnect_leaves_stale_index_entry:
  "run 10 empty_registry ex_reconnect =
     \<lparr>callRooms = [(''r1'', [(''alice'',
         \<lparr>socketId = ''s2'', userId = ''alice'', meetingId = ''r1'', peerId = ''pa2'',
          username = ''alice'', isMuted = True, isVideoOn = False, joinedAt = ''t0''\<rparr>)])],
      socketToUser = [(''s1'', (''r1'', ''alice'')), (''s2'', (''r1'', ''alice''))]\<rparr>
   \<and> \<not> index_consistent (run 10 empty_registry ex_reconnect)
   \<and> run 10 empty_registry (ex_reconnect @ [(''t2'', Disconnect ''s1'')])
       = \<lparr>callRooms = [], socketToUser = [(''s2'', (''r1'', ''alice''))]\<rparr>
   \<and> \<not> index_consistent (run 10 empty_registry (ex_reconnect @ [(''t2'', Disconnect ''s1'')]))"
  by (simp add: ex_reconnect_def ex_join_def index_consistent_def participant_of_def handler_defs)

section \<open>The registry follows the specification's membership\<close>

lemma Map_keys_set:
  "Map_keys (Map_set r k v) = (if k \<in> set (Map_keys r) then Map_keys r else Map_keys r @ [k])"
  unfolding Map_keys_def by (induction r) (force split: if_splits)+

lemma Map_keys_delete: "Map_keys (Map_delete r k) = removeAll k (Map_keys r)"
  unfolding Map_keys_def by (induction r) auto

lemma Map_get_None_iff: "Map_get r k = None \<longleftrightarrow> k \<notin> set (Map_keys r)"
  unfolding Map_keys_def by (induction r) (force split: if_splits)+

lemma Map_keys_Nil_iff: "Map_keys r = [] \<longleftrightarrow> r = []"
  by (simp add: Map_keys_def)

lemma card_Map_keys: "distinct (Map_keys r) \<Longrightarrow> card (set (Map_keys r)) = length r"
  using distinct_card[of "Map_keys r"] by (simp add: Map_keys_def)

lemma truthy_str_iff: "truthy_str x \<longleftrightarrow> (\<exists>s. x = Some s \<and> s \<noteq> [])"
  by (cases x) auto

lemma room_matches_join:
  assumes "room_matches st m A" and "1 \<le> MAX_PARTICIPANTS"
  shows "room_matches (fst (on_JOIN MAX_PARTICIPANTS now1 now2 st sid payload)) m
           (spec_active_step MAX_PARTICIPANTS m A (Join sid payload))"
proof (cases "truthy_str (join_meetingId payload) \<and> truthy_str (join_userId payload)
               \<and> truthy_str (join_peerId payload)")
  case False
  then show ?thesis using assms(1) by (auto simp: on_JOIN_def)
next
  case True
  then obtain m' u p where pl: "join_meetingId payload = Some m'" "join_userId payload = Some u"
      "join_peerId payload = Some p" "m' \<noteq> []" "u \<noteq> []" "p \<noteq> []"
    by (auto simp: truthy_str_iff)
  show ?thesis
  proof (cases "m' = m")
    case False
    then have "Map_get (callRooms (fst (on_JOIN MAX_PARTICIPANTS now1 now2 st sid payload))) m
                 = Map_get (callRooms st) m"
      using pl by (auto simp: on_JOIN_def join_room_def Let_def Map_get_set split: option.splits)
    then show ?thesis using assms(1) pl False by (simp add: room_matches_def)
  next
    case same: True
    show ?thesis
    proof (cases "Map_get (callRooms st) m")
      case None
      then show ?thesis using assms pl same
        by (simp add: room_matches_def on_JOIN_def join_room_def Let_def Map_get_set
                      Map_size_def Map_keys_def)
    next
      case (Some room)
      then have r: "room \<noteq> []" "distinct (Map_keys room)" "set (Map_keys room) = A"
        using assms(1) by (simp_all add: room_matches_def)
      then have c: "card A = length room" using card_Map_keys[of room] by simp
      show ?thesis
      proof (cases "MAX_PARTICIPANTS \<le> int (length room)")
        case True
        then have "fst (on_JOIN MAX_PARTICIPANTS now1 now2 st sid payload) = st"
          using pl same Some by (simp add: on_JOIN_def join_room_def Let_def Map_size_def)
        moreover have "spec_active_step MAX_PARTICIPANTS m A (Join sid payload) = A"
          using True c pl same by (auto simp: insert_absorb)
        ultimately show ?thesis using assms(1) by simp
      next
        case False
        have "\<exists>v. Map_get (callRooms (fst (on_JOIN MAX_PARTICIPANTS now1 now2 st sid payload))) m
                 = Some (Map_set room u v)"
        proof (cases "Map_get room u")
          case None
          have "Map_get (callRooms (fst (on_JOIN MAX_PARTICIPANTS now1 now2 st sid payload))) m
                  = Some (Map_set room u
                      \<lparr>socketId = sid, userId = u, meetingId = m, peerId = p,
                       username = or_Anonymous (join_username payload), isMuted = True,
                       isVideoOn = False, joinedAt = now1\<rparr>)"
            using False None pl same \<open>Map_get (callRooms st) m = Some room\<close>
            by (simp add: on_JOIN_def join_room_def Let_def Map_size_def Map_get_set)
          then show ?thesis by (rule exI)
        next
          case (Some existing)
          have "Map_get (callRooms (fst (on_JOIN MAX_PARTICIPANTS now1 now2 st sid payload))) m
                  = Some (Map_set room u (existing\<lparr>socketId := sid, peerId := p\<rparr>))"
            using False Some pl same \<open>Map_get (callRooms st) m = Some room\<close>
            by (simp add: on_JOIN_def join_room_def Let_def Map_size_def Map_get_set)
          then show ?thesis by (rule exI)
        qed
        then obtain v
          where "Map_get (callRooms (fst (on_JOIN MAX_PARTICIPANTS now1 now2 st sid payload))) m
                 = Some (Map_set room u v)" ..
        moreover have "spec_active_step MAX_PARTICIPANTS m A (Join sid payload) = insert u A"
          using False c pl same by auto
        ultimately show ?thesis using r
          using Map_keys_Nil_iff[of "Map_set room u v"]
          by (auto simp: room_matches_def Map_keys_set)
      qed
    qed
  qed
qed


lemma callRooms_handleUserLeave:
  "callRooms (fst (handleUserLeave now st sid (Some m') (Some u))) =
     (if m' = [] \<or> u = [] then callRooms st
      else case Map_get (callRooms st) m' of
             None \<Rightarrow> callRooms st
           | Some room \<Rightarrow>
               (case Map_get room u of
                  None \<Rightarrow> callRooms st
                | Some participant \<Rightarrow>
                    if Map_delete room u = [] then Map_delete (callRooms st) m'
                    else Map_set (callRooms st) m' (Map_delete room u)))"
  by (simp add: handleUserLeave_def Let_def Map_size_def split: option.splits)

lemma room_matches_leave:
  assumes "room_matches st m A"
  shows "room_matches (fst (on_LEAVE now st sid payload)) m
           (spec_active_step MAX_PARTICIPANTS m A (Leave sid payload))"
proof (cases "truthy_str (leave_meetingId payload) \<and> truthy_str (leave_userId payload)")
  case False
  then have "fst (on_LEAVE now st sid payload) = st"
    by (auto simp: on_LEAVE_def handleUserLeave_def)
  moreover have "spec_active_step MAX_PARTICIPANTS m A (Leave sid payload) = A"
    using False by auto
  ultimately show ?thesis using assms(1) by simp
next
  case True
  then obtain m' u where pl: "leave_meetingId payload = Some m'" "leave_userId payload = Some u"
      "m' \<noteq> []" "u \<noteq> []"
    by (auto simp: truthy_str_iff)
  have rooms: "callRooms (fst (on_LEAVE now st sid payload)) =
     (case Map_get (callRooms st) m' of
             None \<Rightarrow> callRooms st
           | Some room \<Rightarrow>
               (case Map_get room u of
                  None \<Rightarrow> callRooms st
                | Some participant \<Rightarrow>
                    if Map_delete room u = [] then Map_delete (callRooms st) m'
                    else Map_set (callRooms st) m' (Map_delete room u)))"
    using pl by (simp add: on_LEAVE_def callRooms_handleUserLeave)
  show ?thesis
  proof (cases "m' = m")
    case False
    then have "Map_get (callRooms (fst (on_LEAVE now st sid payload))) m
                 = Map_get (callRooms st) m"
      unfolding rooms by (simp add: Map_get_set Map_get_delete split: option.splits)
    moreover have "spec_active_step MAX_PARTICIPANTS m A (Leave sid payload) = A"
      using False pl by simp
    ultimately show ?thesis using assms(1) by (simp add: room_matches_def)
  next
    case same: True
    have act: "spec_active_step MAX_PARTICIPANTS m A (Leave sid payload) = A - {u}"
      using pl same by simp
    show ?thesis
    proof (cases "Map_get (callRooms st) m")
      case None
      then have "Map_get (callRooms (fst (on_LEAVE now st sid payload))) m = None"
        unfolding rooms using same by simp
      moreover have "A = {}" using None assms(1) by (simp add: room_matches_def)
      ultimately show ?thesis unfolding act by (simp add: room_matches_def)
    next
      case (Some room)
      then have r: "room \<noteq> []" "distinct (Map_keys room)" "set (Map_keys room) = A"
        using assms(1) by (simp_all add: room_matches_def)
      show ?thesis
      proof (cases "Map_get room u")
        case None
        then have "Map_get (callRooms (fst (on_LEAVE now st sid payload))) m = Some room"
          unfolding rooms using same Some by simp
        moreover have "u \<notin> A" using None r by (simp add: Map_get_None_iff)
        ultimately show ?thesis unfolding act using r by (simp add: room_matches_def)
      next
        case in_room: (Some participant)
        have k: "Map_keys (Map_delete room u) = removeAll u (Map_keys room)"
          by (rule Map_keys_delete)
        have g: "Map_get (callRooms (fst (on_LEAVE now st sid payload))) m
                = (if Map_delete room u = [] then None else Some (Map_delete room u))"
          unfolding rooms using same Some in_room by (simp add: Map_get_set Map_get_delete)
        have s: "set (Map_keys (Map_delete room u)) = A - {u}"
          unfolding k using r(3) by simp
        have d: "distinct (Map_keys (Map_delete room u))"
          unfolding k using r(2) by (simp add: distinct_removeAll)
        show ?thesis
        proof (cases "Map_delete room u = []")
          case True
          then have "A - {u} = {}" using s by (simp add: Map_keys_def)
          then show ?thesis unfolding act using g True by (simp add: room_matches_def)
        next
          case False
          then show ?thesis unfolding act using g s d by (simp add: room_matches_def)
        qed
      qed
    qed
  qed
qed


lemma room_matches_step:
  assumes "room_matches st m A" and "1 \<le> MAX_PARTICIPANTS" and "is_join_or_leave e"
  shows "room_matches (fst (step MAX_PARTICIPANTS now st e)) m
           (spec_active_step MAX_PARTICIPANTS m A e)"
  using assms
  by (cases e)
     (simp_all add: is_join_or_leave_def room_matches_join room_matches_leave
               del: spec_active_step.simps)

lemma room_matches_run:
  assumes "1 \<le> MAX_PARTICIPANTS"
  shows "room_matches st m A \<Longrightarrow> \<forall>e \<in> set evs. is_join_or_leave (snd e) \<Longrightarrow>
         room_matches (run MAX_PARTICIPANTS st evs) m (spec_active_users MAX_PARTICIPANTS m A evs)"
proof (induction evs arbitrary: st A)
  case Nil
  then show ?case by simp
next
  case (Cons x evs)
  obtain now e where x: "x = (now, e)" by (cases x)
  from Cons.prems have "is_join_or_leave e" by (simp add: x)
  then have "room_matches (fst (step MAX_PARTICIPANTS now st e)) m
               (spec_active_step MAX_PARTICIPANTS m A e)"
    using Cons.prems(1) assms by (rule room_matches_step[rotated 2])
  moreover have "\<forall>e \<in> set evs. is_join_or_leave (snd e)" using Cons.prems(2) by simp
  ultimately show ?case using Cons.IH by (simp add: x)
qed

lemma room_matches_empty: "room_matches empty_registry m {}"
  by (simp add: room_matches_def empty_registry_def)

section \<open>Room membership over join and leave sequences\<close>

text \<open>
  C4: the join handler creates the room before it checks the capacity. When the configured
  maximum is 0 or negative, the first join to a room is answered with \<open>ROOM_FULL\<close> and the
  room it has just created stays in the registry, empty.
\<close>

theorem join_with_nonpositive_max_leaves_empty_room:
  assumes "MAX_PARTICIPANTS \<le> 0" and "Map_get (callRooms st) m = None"
    and "m \<noteq> []" and "u \<noteq> []" and "pid \<noteq> []"
  shows "on_JOIN MAX_PARTICIPANTS now1 now2 st sid
           \<lparr>join_meetingId = Some m, join_userId = Some u, join_peerId = Some pid,
            join_username = name\<rparr>
         = (st\<lparr>callRooms := Map_set (callRooms st) m []\<rparr>,
            [Emit (Socket_emit sid) (ERROR ROOM_FULL)])
       \<and> Map_get (callRooms (fst (on_JOIN MAX_PARTICIPANTS now1 now2 st sid
           \<lparr>join_meetingId = Some m, join_userId = Some u, join_peerId = Some pid,
            join_username = name\<rparr>))) m = Some []"
  using assms by (simp add: on_JOIN_def join_room_def Let_def Map_size_def Map_get_set)

text \<open>
  The failing sequence: with a maximum of 0, one join from the empty registry. Nobody has
  joined, the room has size 0, and the room is in the registry.
\<close>

theorem join_with_nonpositive_max_leaves_empty_room_witness:
  "snd (on_JOIN 0 ''t0'' ''t0'' empty_registry ''s1'' (ex_join ''r1'' ''alice'' ''pa''))
     = [Emit (Socket_emit ''s1'') (ERROR ROOM_FULL)]
   \<and> run 0 empty_registry [(''t0'', Join ''s1'' (ex_join ''r1'' ''alice'' ''pa''))]
       = \<lparr>callRooms = [(''r1'', [])], socketToUser = []\<rparr>
   \<and> Map_get (callRooms (run 0 empty_registry
          [(''t0'', Join ''s1'' (ex_join ''r1'' ''alice'' ''pa''))])) ''r1'' \<noteq> None
   \<and> room_size (run 0 empty_registry
          [(''t0'', Join ''s1'' (ex_join ''r1'' ''alice'' ''pa''))]) ''r1'' = 0
   \<and> spec_active_users 0 ''r1'' {} [(''t0'', Join ''s1'' (ex_join ''r1'' ''alice'' ''pa''))] = {}"
proof -
  have a: "Map_get (callRooms empty_registry) ''r1'' = None"
    by (simp add: empty_registry_def)
  have j: "on_JOIN 0 ''t0'' ''t0'' empty_registry ''s1'' (ex_join ''r1'' ''alice'' ''pa'')
             = (\<lparr>callRooms = [(''r1'', [])], socketToUser = []\<rparr>,
                [Emit (Socket_emit ''s1'') (ERROR ROOM_FULL)])"
    using join_with_nonpositive_max_leaves_empty_room
            [OF _ a, of 0 "''alice''" "''pa''" "''t0''" "''t0''" "''s1''" "Some ''alice''"]
    by (simp add: ex_join_def empty_registry_def)
  have s: "spec_active_users 0 ''r1'' {} [(''t0'', Join ''s1'' (ex_join ''r1'' ''alice'' ''pa''))] = {}"
    by (simp add: ex_join_def)
  show ?thesis using s by (simp add: j room_size_def Map_size_def)
qed

text \<open>
  With a maximum of at least 1 the registry follows the specification's membership: after
  every prefix of a sequence of join and leave events handled from the empty registry, the
  user ids stored for a room are pairwise distinct and are exactly the users that have
  joined the room and not left since (\<open>spec_active_users\<close>), so the size of the room is
  the number of those users, and the room is in the registry exactly when that number is
  not zero.
\<close>

theorem room_size_is_active_users:
  assumes "1 \<le> MAX_PARTICIPANTS" and "\<forall>e \<in> set evs. is_join_or_leave (snd e)"
  shows "(let st = run MAX_PARTICIPANTS empty_registry (take n evs);
              A = spec_active_users MAX_PARTICIPANTS m {} (take n evs)
          in distinct (room_keys st m) \<and> set (room_keys st m) = A
             \<and> room_size st m = card A
             \<and> (Map_get (callRooms st) m \<noteq> None \<longleftrightarrow> room_size st m \<noteq> 0))"
proof -
  define st where "st = run MAX_PARTICIPANTS empty_registry (take n evs)"
  define A where "A = spec_active_users MAX_PARTICIPANTS m {} (take n evs)"
  have "\<forall>e \<in> set (take n evs). is_join_or_leave (snd e)"
    using assms(2) by (meson in_set_takeD)
  with assms(1) room_matches_empty
  have "room_matches (run MAX_PARTICIPANTS empty_registry (take n evs)) m
          (spec_active_users MAX_PARTICIPANTS m {} (take n evs))"
    by (rule room_matches_run)
  then have rm: "room_matches st m A"
    by (simp add: st_def A_def)
  have "distinct (room_keys st m) \<and> set (room_keys st m) = A \<and> room_size st m = card A
          \<and> (Map_get (callRooms st) m \<noteq> None \<longleftrightarrow> room_size st m \<noteq> 0)"
  proof (cases "Map_get (callRooms st) m")
    case None
    then show ?thesis using rm by (simp add: room_matches_def room_keys_def room_size_def)
  next
    case (Some room)
    then have r: "room \<noteq> []" "distinct (Map_keys room)" "set (Map_keys room) = A"
      using rm by (simp_all add: room_matches_def)
    then have "card A = length room" using card_Map_keys[of room] by simp
    then show ?thesis using Some r by (simp add: room_keys_def room_size_def Map_size_def)
  qed
  then show ?thesis by (simp add: Let_def st_def A_def)
qed

theorem room_size_is_active_users_witness:
  "(1::int) \<le> 10
   \<and> list_all (\<lambda>e. is_join_or_leave (snd e)) ex_call
   \<and> room_keys (run 10 empty_registry (take 2 ex_call)) ''r1'' = [''alice'', ''bob'']
   \<and> room_size (run 10 empty_registry (take 2 ex_call)) ''r1''
       = card (spec_active_users 10 ''r1'' {} (take 2 ex_call))
   \<and> spec_active_users 10 ''r1'' {} (take 2 ex_call) = {''alice'', ''bob''}
   \<and> room_size (run 10 empty_registry (take 3 ex_call)) ''r1'' = 1
   \<and> Map_get (callRooms (run 10 empty_registry (take 4 ex_call))) ''r1'' = None
   \<and> room_size (run 10 empty_registry (take 4 ex_call)) ''r1'' = 0"
proof -
  have h: "\<forall>e \<in> set ex_call. is_join_or_leave (snd e)"
    by (simp add: ex_call_def is_join_or_leave_def)
  have a: "spec_active_users 10 ''r1'' {} (take 2 ex_call) = {''alice'', ''bob''}"
          "spec_active_users 10 ''r1'' {} (take 3 ex_call) = {''bob''}"
          "spec_active_users 10 ''r1'' {} (take 4 ex_call) = {}"
    by (auto simp: ex_call_def ex_join_def ex_leave_def take_Cons')
  have k: "room_keys (run 10 empty_registry (take 2 ex_call)) ''r1'' = [''alice'', ''bob'']"
    by (simp add: ex_call_def ex_join_def ex_leave_def take_Cons' room_keys_def Map_keys_def
                  handler_defs)
  have one: "(1::int) \<le> 10" by simp
  have s2: "room_size (run 10 empty_registry (take 2 ex_call)) ''r1''
              = card (spec_active_users 10 ''r1'' {} (take 2 ex_call))"
    using room_size_is_active_users[OF one h, of 2 "''r1''"] by (simp add: Let_def)
  have s3: "room_size (run 10 empty_registry (take 3 ex_call)) ''r1'' = 1"
    using room_size_is_active_users[OF one h, of 3 "''r1''"] a(2) by (simp add: Let_def)
  have s4: "room_size (run 10 empty_registry (take 4 ex_call)) ''r1'' = 0"
    using room_size_is_active_users[OF one h, of 4 "''r1''"] a(3) by (simp add: Let_def)
  have g4: "Map_get (callRooms (run 10 empty_registry (take 4 ex_call))) ''r1'' = None"
    using room_size_is_active_users[OF one h, of 4 "''r1''"] s4 by (simp add: Let_def)
  have l: "list_all (\<lambda>e. is_join_or_leave (snd e)) ex_call"
    using h by (simp add: list_all_iff)
  from one l k s2 a(1) s3 g4 s4 show ?thesis by blast
qed

end
